theory Spec2Isabelle
  imports Complex_Main "HOL-Library.Multiset" "HOL-Library.Product_Lexorder"
begin

section \<open>Build persistence: app/db/models/builds/queries.server.ts\<close>

text \<open>
  A shallow embedding of the build queries. Thrown exceptions are values of
  \<open>error\<close> on the left of a sum; JavaScript numbers that hold identifiers,
  indices and counts are \<open>int\<close>; string-literal unions whose members the
  source lists are datatypes, the others are strings.
\<close>

subsection \<open>Errors\<close>

datatype error =
    InvariantFailed string  \<comment> \<open>thrown by \<open>invariant(cond, message)\<close>\<close>
  | StorageFailure string   \<comment> \<open>thrown by a prepared statement\<close>
  | SyntaxError string      \<comment> \<open>thrown by \<open>JSON.parse\<close>\<close>
  | TypeError string        \<comment> \<open>thrown by a property read on \<open>undefined\<close>\<close>

definition invariant :: "bool \<Rightarrow> string \<Rightarrow> error + unit" where
  "invariant cond message = (if cond then Inr () else Inl (InvariantFailed message))"

subsection \<open>Array built-ins\<close>

text \<open>
  \<open>Array.prototype.indexOf\<close>: the first index holding the element, \<open>-1\<close>
  when there is none.
\<close>

fun indexOf :: "'a list \<Rightarrow> 'a \<Rightarrow> int" where
  "indexOf [] x = - 1"
| "indexOf (y # ys) x =
     (if y = x then 0
      else (let i = indexOf ys x in if i < 0 then - 1 else i + 1))"

text \<open>
  \<open>Array.prototype.sort(compareFn)\<close> is stable: elements that compare equal
  keep their relative order. It is modelled as stable insertion sort on the
  comparator's sign. Both comparators of this file are differences of integer
  keys, hence consistent, and for a consistent comparator every stable sort
  returns the same array.
\<close>

fun insertBy :: "('a \<Rightarrow> 'a \<Rightarrow> int) \<Rightarrow> 'a \<Rightarrow> 'a list \<Rightarrow> 'a list" where
  "insertBy compareFn x [] = [x]"
| "insertBy compareFn x (y # ys) =
     (if compareFn x y \<le> 0 then x # y # ys else y # insertBy compareFn x ys)"

definition arraySort :: "('a \<Rightarrow> 'a \<Rightarrow> int) \<Rightarrow> 'a list \<Rightarrow> 'a list" where
  "arraySort compareFn xs = foldr (insertBy compareFn) xs []"

text \<open>\<open>Array.prototype.entries\<close>: the elements paired with their indices.\<close>

fun entriesFrom :: "int \<Rightarrow> 'a list \<Rightarrow> (int \<times> 'a) list" where
  "entriesFrom i [] = []"
| "entriesFrom i (x # xs) = (i, x) # entriesFrom (i + 1) xs"

definition entries :: "'a list \<Rightarrow> (int \<times> 'a) list" where
  "entries xs = entriesFrom 0 xs"

subsection \<open>Ability cells\<close>

datatype gearType = HEAD | CLOTHES | SHOES

type_synonym ability = string

text \<open>\<open>Pick<BuildAbility, "ability" | "gearType" | "slotIndex">\<close>\<close>

record abilityCell =
  ability :: ability
  gearType :: gearType
  slotIndex :: int

text \<open>
  \<open>BuildAbilitiesTuple\<close> is a tuple of three tuples of four abilities; it is
  a list of lists here, and \<open>validMatrix\<close> is what the tuple type says.
\<close>

definition validMatrix :: "ability list list \<Rightarrow> bool" where
  "validMatrix m = (length m = 3 \<and> list_all (\<lambda>row. length row = 4) m)"

text \<open>
  The cells that the ability loop of \<open>create\<close> (lines 71 to 83) hands to
  \<open>createBuildAbilityStm\<close>, in the order of the loop, without the build id.
\<close>

definition rowGearType :: "int \<Rightarrow> gearType" where
  "rowGearType rowI = (if rowI = 0 then HEAD else if rowI = 1 then CLOTHES else SHOES)"

definition abilityCells :: "ability list list \<Rightarrow> abilityCell list" where
  "abilityCells abilities =
     concat (map (\<lambda>(rowI, row).
               map (\<lambda>(abilityI, a).
                      \<lparr>ability = a, gearType = rowGearType rowI, slotIndex = abilityI\<rparr>)
                   (entries row))
             (entries abilities))"

subsection \<open>Decoding: dbAbilitiesToArrayOfArrays\<close>

definition gearOrder :: "gearType list" where
  "gearOrder = [HEAD, CLOTHES, SHOES]"

definition compareAbilities :: "abilityCell \<Rightarrow> abilityCell \<Rightarrow> int" where
  "compareAbilities a b =
     (if gearType a = gearType b then slotIndex a - slotIndex b
      else indexOf gearOrder (gearType a) - indexOf gearOrder (gearType b))"

definition dbAbilitiesToArrayOfArrays :: "abilityCell list \<Rightarrow> error + ability list list" where
  "dbAbilitiesToArrayOfArrays abilities =
     (let sortedAbilities = map ability (arraySort compareAbilities abilities) in
      case invariant (length sortedAbilities = 12) ''expected 12 abilities'' of
        Inl e \<Rightarrow> Inl e
      | Inr _ \<Rightarrow>
          Inr [[sortedAbilities ! 0, sortedAbilities ! 1, sortedAbilities ! 2, sortedAbilities ! 3],
               [sortedAbilities ! 4, sortedAbilities ! 5, sortedAbilities ! 6, sortedAbilities ! 7],
               [sortedAbilities ! 8, sortedAbilities ! 9, sortedAbilities ! 10, sortedAbilities ! 11]])"

subsection \<open>Collaborators that are not in this file\<close>

type_synonym modeShort = string

text \<open>
  \<open>modesShort\<close> and \<open>weaponIdToAltId\<close> are imported from
  \<open>~/modules/in-game-lists\<close>; they are parameters of the model. Every value of
  type \<open>ModeShort\<close> is an element of \<open>modesShort\<close>.
\<close>

record catalog =
  modesShort :: "modeShort list"
  weaponIdToAltId :: "int \<rightharpoonup> int"

text \<open>\<open>BuildWeaponWithTop500Info\<close> (lines 104 to 108)\<close>

record buildWeaponWithTop500Info =
  weaponSplId :: int
  minRank :: "int option"
  maxPower :: "real option"

text \<open>
  \<open>JSON.stringify\<close> and \<open>JSON.parse\<close> are parameters too; each parse is
  given at the type its result is cast to.
\<close>

record json =
  stringify :: "modeShort list \<Rightarrow> string"
  parseModes :: "string \<Rightarrow> error + modeShort list"
  parseWeapons :: "string \<Rightarrow> error + buildWeaponWithTop500Info list"
  parseAbilities :: "string \<Rightarrow> error + abilityCell list"

text \<open>
  The prepared statements, with the parameters bound at each call. The SQL
  texts are imported from \<open>.sql\<close> files, so what a statement does to the
  stored data \<open>'d\<close> is a parameter: \<open>runStm\<close> for the four writing
  statements, one function for each reading statement. A statement either
  throws or returns; \<open>runStm\<close> returns the id of the row that \<open>get\<close>
  yields, if it yields one (only \<open>createBuildStm\<close> is read that way).
  \<open>CreateBuild\<close> binds, in this order: ownerId, title, description, modes,
  headGearSplId, clothesGearSplId, shoesGearSplId, private.
  \<open>CreateBuildWeapon\<close> binds buildId and weaponSplId; \<open>CreateBuildAbility\<close>
  binds buildId, gearType, ability and slotIndex; \<open>DeleteById\<close> binds id.
\<close>

datatype stmtCall =
    CreateBuild int string "string option" "string option" int int int int
  | CreateBuildWeapon int int
  | CreateBuildAbility int gearType ability int
  | DeleteById int

record countRow =
  count' :: "int option"

text \<open>
  \<open>BuildsByUserRow\<close> and \<open>BuildsByWeaponIdRow\<close>: the three fields that
  \<open>augmentBuild\<close> takes out, and the rest of the row, of any type \<open>'t\<close>.
\<close>

record 't rawRow =
  rawModes :: "string option"
  rawWeapons :: string
  rawAbilities :: string
  row :: 't

record buildsByWeaponIdParams =
  weaponId :: int
  altWeaponId :: int
  limit :: int

record ('d, 'u, 'w) engine =
  runStm :: "stmtCall \<Rightarrow> 'd \<Rightarrow> (error + int option) \<times> 'd"
  countByUserIdStm :: "int \<Rightarrow> int option \<Rightarrow> 'd \<Rightarrow> error + countRow option"
  buildsByUserIdStm :: "int \<Rightarrow> int option \<Rightarrow> 'd \<Rightarrow> error + 'u rawRow list"
  buildsByWeaponIdStm :: "buildsByWeaponIdParams \<Rightarrow> 'd \<Rightarrow> error + 'w rawRow list"

subsection \<open>Operations on the stored data\<close>

text \<open>
  An operation takes the stored data and returns its outcome, the data it
  leaves, and the events it caused, in order. The events are there to state
  what happened during the operation: which statements ran or failed, and
  where a transaction was opened and closed.
\<close>

datatype event =
    Begin | Commit | Rollback
  | Savepoint | Release | RollbackTo
  | Ran stmtCall | Failed stmtCall

type_synonym ('d, 'a) operation = "'d \<Rightarrow> (error + 'a) \<times> 'd \<times> event list"

definition outcome :: "(error + 'a) \<times> 'd \<times> event list \<Rightarrow> error + 'a" where
  "outcome res = fst res"

definition dataAfter :: "(error + 'a) \<times> 'd \<times> event list \<Rightarrow> 'd" where
  "dataAfter res = fst (snd res)"

definition eventsOf :: "(error + 'a) \<times> 'd \<times> event list \<Rightarrow> event list" where
  "eventsOf res = snd (snd res)"

definition exec :: "('d, 'u, 'w) engine \<Rightarrow> stmtCall \<Rightarrow> ('d, int option) operation" where
  "exec eng call d =
     (case runStm eng call d of
        (Inl e, d') \<Rightarrow> (Inl e, d', [Failed call])
      | (Inr v, d') \<Rightarrow> (Inr v, d', [Ran call]))"

definition throw :: "error \<Rightarrow> ('d, 'a) operation" where
  "throw e d = (Inl e, d, [])"

definition andThen :: "('d, 'a) operation \<Rightarrow> ('a \<Rightarrow> ('d, 'b) operation) \<Rightarrow> ('d, 'b) operation" where
  "andThen m k d =
     (case m d of
        (Inl e, d1, evs1) \<Rightarrow> (Inl e, d1, evs1)
      | (Inr v, d1, evs1) \<Rightarrow>
          (case k v d1 of (r, d2, evs2) \<Rightarrow> (r, d2, evs1 @ evs2)))"

text \<open>A \<open>for ... of\<close> loop: the body for each element in turn, until one throws.\<close>

fun forEach :: "'x list \<Rightarrow> ('x \<Rightarrow> ('d, 'a) operation) \<Rightarrow> ('d, unit) operation" where
  "forEach [] body d = (Inr (), d, [])"
| "forEach (x # xs) body d = andThen (body x) (\<lambda>_. forEach xs body) d"

text \<open>
  Modelled from the spec: \<open>sql.transaction\<close> belongs to the storage library and
  is not under src/. It is "a transaction wrapper that executes a unit of work
  atomically and re-raises any internal failure after rollback", and "this
  layer never begins a second transaction while one is open": a function that
  is called inside another runs "within the same transaction boundary". A
  call begins a transaction, runs the function, and ends the transaction: with
  a commit when the function returns, with a rollback to the data of the
  moment it began when the function throws, and then it throws the same error.
  A call made by the function, while the transaction is open, begins none: its
  start and its end are marks inside the open transaction (\<open>Savepoint\<close>, and
  \<open>Release\<close> or \<open>RollbackTo\<close>), and what it does to the data is the same.
\<close>

fun nested :: "event \<Rightarrow> event" where
  "nested Begin = Savepoint"
| "nested Commit = Release"
| "nested Rollback = RollbackTo"
| "nested e = e"

definition transaction :: "('d, 'a) operation \<Rightarrow> ('d, 'a) operation" where
  "transaction fn d =
     (case fn d of
        (Inl e, d', evs) \<Rightarrow> (Inl e, d, Begin # map nested evs @ [Rollback])
      | (Inr v, d', evs) \<Rightarrow> (Inr v, d', Begin # map nested evs @ [Commit]))"

text \<open>
  The number of transactions open after each event, and the largest number
  open at any point of a sequence of events that starts with \<open>n\<close> open.
\<close>

fun openAfter :: "nat \<Rightarrow> event \<Rightarrow> nat" where
  "openAfter n Begin = n + 1"
| "openAfter n Commit = n - 1"
| "openAfter n Rollback = n - 1"
| "openAfter n e = n"

fun peakOpen :: "nat \<Rightarrow> event list \<Rightarrow> nat" where
  "peakOpen n [] = n"
| "peakOpen n (e # es) = max n (peakOpen (openAfter n e) es)"

text \<open>The number of transactions begun in a sequence of events.\<close>

definition begun :: "event list \<Rightarrow> nat" where
  "begun evs = length (filter (\<lambda>e. e = Begin) evs)"

subsection \<open>Writing: create, updateByReplacing, deleteById\<close>

record CreateArgs =
  ownerId :: int
  title :: string
  description :: "string option"
  modes :: "modeShort list option"
  headGearSplId :: int
  clothesGearSplId :: int
  shoesGearSplId :: int
  weaponSplIds :: "int list"
  abilities :: "ability list list"
  private' :: int

definition encodeModes :: "catalog \<Rightarrow> json \<Rightarrow> modeShort list option \<Rightarrow> string option" where
  "encodeModes cat js buildModes =
     (case buildModes of
        None \<Rightarrow> None
      | Some ms \<Rightarrow>
          if length ms > 0
          then Some (stringify js
                 (arraySort (\<lambda>a b. indexOf (modesShort cat) a - indexOf (modesShort cat) b) ms))
          else None)"

text \<open>\<open>createdBuild.id\<close>, where \<open>createdBuild\<close> is what \<open>get\<close> returned.\<close>

definition createdBuildId :: "int option \<Rightarrow> ('d, int) operation" where
  "createdBuildId createdBuild =
     (case createdBuild of
        None \<Rightarrow> throw (TypeError ''createdBuild is undefined'')
      | Some i \<Rightarrow> (\<lambda>d. (Inr i, d, [])))"

text \<open>The weapon loop (lines 64 to 69) and the ability loop (lines 71 to 83).\<close>

definition createWeapons ::
  "('d, 'u, 'w) engine \<Rightarrow> int option \<Rightarrow> int list \<Rightarrow> ('d, unit) operation" where
  "createWeapons eng createdBuild ids =
     forEach ids (\<lambda>weaponSplId.
       andThen (createdBuildId createdBuild) (\<lambda>buildId.
         exec eng (CreateBuildWeapon buildId weaponSplId)))"

definition createAbilities ::
  "('d, 'u, 'w) engine \<Rightarrow> int option \<Rightarrow> ability list list \<Rightarrow> ('d, unit) operation" where
  "createAbilities eng createdBuild matrix =
     forEach (entries matrix) (\<lambda>(rowI, row).
       forEach (entries row) (\<lambda>(abilityI, a).
         andThen (createdBuildId createdBuild) (\<lambda>buildId.
           exec eng (CreateBuildAbility buildId (rowGearType rowI) a abilityI))))"

text \<open>The function that \<open>create\<close> wraps in a transaction (lines 45 to 84).\<close>

definition createFn ::
  "('d, 'u, 'w) engine \<Rightarrow> catalog \<Rightarrow> json \<Rightarrow> 'z CreateArgs_scheme \<Rightarrow> ('d, unit) operation" where
  "createFn eng cat js build =
     andThen
       (exec eng (CreateBuild (ownerId build) (title build) (description build)
                    (encodeModes cat js (modes build))
                    (headGearSplId build) (clothesGearSplId build) (shoesGearSplId build)
                    (private' build)))
       (\<lambda>createdBuild.
          andThen (createWeapons eng createdBuild (weaponSplIds build))
            (\<lambda>_. createAbilities eng createdBuild (abilities build)))"

definition create ::
  "('d, 'u, 'w) engine \<Rightarrow> catalog \<Rightarrow> json \<Rightarrow> 'z CreateArgs_scheme \<Rightarrow> ('d, unit) operation" where
  "create eng cat js build = transaction (createFn eng cat js build)"

text \<open>\<open>CreateArgs & { id: Build["id"] }\<close>\<close>

record CreateArgsWithId = CreateArgs +
  id' :: int

definition updateByReplacing ::
  "('d, 'u, 'w) engine \<Rightarrow> catalog \<Rightarrow> json \<Rightarrow> CreateArgsWithId \<Rightarrow> ('d, unit) operation" where
  "updateByReplacing eng cat js build =
     transaction
       (andThen (exec eng (DeleteById (id' build))) (\<lambda>_. create eng cat js build))"

definition deleteById :: "('d, 'u, 'w) engine \<Rightarrow> int \<Rightarrow> ('d, unit) operation" where
  "deleteById eng buildId = andThen (exec eng (DeleteById buildId)) (\<lambda>_ d. (Inr (), d, []))"

subsection \<open>Reading: countByUserId, buildsByUserId, buildsByWeaponId\<close>

definition countByUserId ::
  "('d, 'u, 'w) engine \<Rightarrow> int \<Rightarrow> int option \<Rightarrow> 'd \<Rightarrow> error + int" where
  "countByUserId eng userId loggedInUserId d =
     (case countByUserIdStm eng userId loggedInUserId d of
        Inl e \<Rightarrow> Inl e
      | Inr None \<Rightarrow> Inr 0
      | Inr (Some r) \<Rightarrow> (case count' r of None \<Rightarrow> Inr 0 | Some n \<Rightarrow> Inr n))"

text \<open>What \<open>augmentBuild\<close> returns: the rest of the row and the decoded fields.\<close>

record 't augmentedBuild =
  rest :: 't
  modes' :: "modeShort list option"
  weapons :: "buildWeaponWithTop500Info list"
  abilities' :: "ability list list"

definition augmentBuild :: "json \<Rightarrow> 't rawRow \<Rightarrow> error + 't augmentedBuild" where
  "augmentBuild js r =
     (case (case rawModes r of
              None \<Rightarrow> Inr None
            | Some s \<Rightarrow>
                if s = [] then Inr None
                else (case parseModes js s of Inl e \<Rightarrow> Inl e | Inr ms \<Rightarrow> Inr (Some ms))) of
        Inl e \<Rightarrow> Inl e
      | Inr decodedModes \<Rightarrow>
          (case parseWeapons js (rawWeapons r) of
             Inl e \<Rightarrow> Inl e
           | Inr parsedWeapons \<Rightarrow>
               (case parseAbilities js (rawAbilities r) of
                  Inl e \<Rightarrow> Inl e
                | Inr parsedAbilities \<Rightarrow>
                    (case dbAbilitiesToArrayOfArrays parsedAbilities of
                       Inl e \<Rightarrow> Inl e
                     | Inr matrix \<Rightarrow>
                         Inr \<lparr>rest = row r,
                              modes' = decodedModes,
                              weapons = arraySort (\<lambda>a b. weaponSplId a - weaponSplId b) parsedWeapons,
                              abilities' = matrix\<rparr>))))"

text \<open>\<open>rows.map(augmentBuild)\<close>: the first row that throws ends the map.\<close>

fun mapRows :: "('a \<Rightarrow> error + 'b) \<Rightarrow> 'a list \<Rightarrow> error + 'b list" where
  "mapRows f [] = Inr []"
| "mapRows f (x # xs) =
     (case f x of
        Inl e \<Rightarrow> Inl e
      | Inr y \<Rightarrow> (case mapRows f xs of Inl e \<Rightarrow> Inl e | Inr ys \<Rightarrow> Inr (y # ys)))"


definition buildsByWeaponIdArgs :: "catalog \<Rightarrow> int \<Rightarrow> int \<Rightarrow> buildsByWeaponIdParams" where
  "buildsByWeaponIdArgs cat wid rowLimit =
     \<lparr>weaponId = wid,
      altWeaponId = (case weaponIdToAltId cat wid of None \<Rightarrow> - 1 | Some alt \<Rightarrow> alt),
      limit = rowLimit\<rparr>"

definition buildsByWeaponId ::
  "('d, 'u, 'w) engine \<Rightarrow> catalog \<Rightarrow> json \<Rightarrow> int \<Rightarrow> int \<Rightarrow> 'd \<Rightarrow> error + 'w augmentedBuild list" where
  "buildsByWeaponId eng cat js wid rowLimit d =
     (case buildsByWeaponIdStm eng (buildsByWeaponIdArgs cat wid rowLimit) d of
        Inl e \<Rightarrow> Inl e
      | Inr rows \<Rightarrow> mapRows (augmentBuild js) rows)"

subsection \<open>Notions used in the statements and proofs\<close>

text \<open>
  Modelled from the spec: \<open>buildsByWeaponId.sql\<close> is not under src/. The
  listing by weapon finds "builds filed under either identifier": a build
  with the weapon identifiers \<open>ws\<close> matches when the primary or the alternate
  identifier of the query is among them.
\<close>

definition queryMatches :: "buildsByWeaponIdParams \<Rightarrow> int list \<Rightarrow> bool" where
  "queryMatches params ws = (weaponId params \<in> set ws \<or> altWeaponId params \<in> set ws)"

text \<open>
  The key that \<open>compareAbilities\<close> orders by: gear rank, then slot index,
  compared lexicographically.
\<close>

definition abilityKey :: "abilityCell \<Rightarrow> int \<times> int" where
  "abilityKey a = (indexOf gearOrder (gearType a), slotIndex a)"

text \<open>The event of \<open>createBuildAbilityStm\<close> having run for a cell.\<close>

definition ranCell :: "int \<Rightarrow> abilityCell \<Rightarrow> event" where
  "ranCell buildId c = Ran (CreateBuildAbility buildId (gearType c) (ability c) (slotIndex c))"

text \<open>Some statement failed; no transaction was begun or ended.\<close>

fun isFailed :: "event \<Rightarrow> bool" where
  "isFailed (Failed call) = True"
| "isFailed e = False"

definition anyFailed :: "event list \<Rightarrow> bool" where
  "anyFailed evs = list_ex isFailed evs"

definition statementsOnly :: "event list \<Rightarrow> bool" where
  "statementsOnly evs = list_all (\<lambda>e. e \<noteq> Begin \<and> e \<noteq> Commit \<and> e \<noteq> Rollback) evs"

text \<open>
  An operation propagates failures when it throws whenever one of its
  statements failed.
\<close>

definition propagates :: "('d, 'a) operation \<Rightarrow> bool" where
  "propagates m = (\<forall>d. anyFailed (eventsOf (m d)) \<longrightarrow> isl (outcome (m d)))"

subsection \<open>A storage engine for the examples\<close>

text \<open>
  Modelled from the spec: the tables of section 3 (builds, their weapons,
  their ability cells), held in memory; deleting a build cascades to its
  weapons and cells, and a negative weapon identifier violates a constraint.
  The theorems below hold for every engine; this one makes their examples
  concrete.
\<close>

record store =
  lastId :: int
  buildRows :: "(int \<times> int \<times> string) list"
  weaponRows :: "(int \<times> int) list"
  abilityRows :: "(int \<times> abilityCell) list"

fun exampleRun :: "stmtCall \<Rightarrow> store \<Rightarrow> (error + int option) \<times> store" where
  "exampleRun (CreateBuild owner t de mo h c s p) d =
     (Inr (Some (lastId d + 1)),
      d\<lparr>lastId := lastId d + 1, buildRows := buildRows d @ [(lastId d + 1, owner, t)]\<rparr>)"
| "exampleRun (CreateBuildWeapon b w) d =
     (if w < 0 then (Inl (StorageFailure ''CHECK constraint failed''), d)
      else (Inr None, d\<lparr>weaponRows := weaponRows d @ [(b, w)]\<rparr>))"
| "exampleRun (CreateBuildAbility b g a i) d =
     (Inr None,
      d\<lparr>abilityRows := abilityRows d @ [(b, \<lparr>ability = a, gearType = g, slotIndex = i\<rparr>)]\<rparr>)"
| "exampleRun (DeleteById b) d =
     (Inr None,
      d\<lparr>buildRows := filter (\<lambda>r. fst r \<noteq> b) (buildRows d),
        weaponRows := filter (\<lambda>r. fst r \<noteq> b) (weaponRows d),
        abilityRows := filter (\<lambda>r. fst r \<noteq> b) (abilityRows d)\<rparr>)"

text \<open>
  The reading statements of the example return one row for the owner 7 and
  for the weapons 40 and 10, and none otherwise; the row's blobs are the texts
  \<open>''W''\<close> and \<open>''A''\<close>, the only ones that \<open>exampleJson\<close> parses. Its
  \<open>stringify\<close> writes the modes between brackets, each followed by a comma.
\<close>

definition exampleRow :: "unit rawRow" where
  "exampleRow = \<lparr>rawModes = None, rawWeapons = ''W'', rawAbilities = ''A'', row = ()\<rparr>"

definition exampleEngine :: "(store, unit, unit) engine" where
  "exampleEngine =
     \<lparr>runStm = exampleRun,
      countByUserIdStm = (\<lambda>userId viewer d.
         Inr (Some \<lparr>count' = Some (int (length (filter (\<lambda>r. fst (snd r) = userId) (buildRows d))))\<rparr>)),
      buildsByUserIdStm = (\<lambda>userId viewer d. Inr (if userId = 7 then [exampleRow] else [])),
      buildsByWeaponIdStm = (\<lambda>params d.
         Inr (if queryMatches params [40, 10] then [exampleRow] else []))\<rparr>"

definition exampleCatalog :: catalog where
  "exampleCatalog =
     \<lparr>modesShort = [''TW'', ''SZ'', ''TC'', ''RM'', ''CB''],
      weaponIdToAltId = [40 \<mapsto> 45]\<rparr>"

definition exampleMatrix :: "ability list list" where
  "exampleMatrix =
     [[''ISM'', ''ISS'', ''IRU'', ''RSU''], [''SSU'', ''SCU'', ''SS'', ''SPU''],
      [''QR'', ''QSJ'', ''BRU'', ''RES'']]"

definition exampleJson :: json where
  "exampleJson =
     \<lparr>stringify = (\<lambda>ms. ''['' @ concat (map (\<lambda>m. m @ '','') ms) @ '']''),
      parseModes = (\<lambda>s. Inl (SyntaxError s)),
      parseWeapons = (\<lambda>s.
         if s = ''W''
         then Inr [\<lparr>weaponSplId = 40, minRank = None, maxPower = None\<rparr>,
                   \<lparr>weaponSplId = 10, minRank = Some 3, maxPower = None\<rparr>]
         else Inl (SyntaxError s)),
      parseAbilities = (\<lambda>s.
         if s = ''A'' then Inr (rev (abilityCells exampleMatrix)) else Inl (SyntaxError s))\<rparr>"

definition exampleStore :: store where
  "exampleStore = \<lparr>lastId = 0, buildRows = [], weaponRows = [], abilityRows = []\<rparr>"

definition exampleStoreWithBuild :: store where
  "exampleStoreWithBuild =
     \<lparr>lastId = 1, buildRows = [(1, 7, ''Old'')], weaponRows = [(1, 40)],
      abilityRows = map (Pair 1) (abilityCells exampleMatrix)\<rparr>"

definition exampleBuild :: "int list \<Rightarrow> CreateArgsWithId" where
  "exampleBuild ws =
     \<lparr>ownerId = 7, title = ''Test'', description = None, modes = Some [''SZ'', ''TW''],
      headGearSplId = 1, clothesGearSplId = 2, shoesGearSplId = 3,
      weaponSplIds = ws, abilities = exampleMatrix, private' = 0, id' = 1\<rparr>"

section \<open>Properties\<close>

subsection \<open>The sort\<close>

lemma insertBy_insort_key:
  assumes "\<And>a b. (compareFn a b \<le> 0) = (key a \<le> key b)"
  shows "insertBy compareFn x ys = insort_key key x ys"
  by (induction ys) (simp_all add: assms)

lemma arraySort_sort_key:
  assumes "\<And>a b. (compareFn a b \<le> 0) = (key a \<le> key b)"
  shows "arraySort compareFn xs = sort_key key xs"
  by (induction xs) (simp_all add: arraySort_def insertBy_insort_key [OF assms])

lemma length_insertBy: "length (insertBy compareFn x ys) = Suc (length ys)"
  by (induction ys) simp_all

lemma length_arraySort: "length (arraySort compareFn xs) = length xs"
  by (induction xs) (simp_all add: arraySort_def length_insertBy)

subsection \<open>The ability codec\<close>

lemma compareAbilities_key:
  "(compareAbilities a b \<le> 0) = (abilityKey a \<le> abilityKey b)"
  by (cases "gearType a"; cases "gearType b")
     (auto simp: compareAbilities_def abilityKey_def gearOrder_def less_eq_prod_def)

lemma arraySort_abilities: "arraySort compareAbilities xs = sort_key abilityKey xs"
  by (rule arraySort_sort_key) (rule compareAbilities_key)

lemma list4: "length r = 4 \<Longrightarrow> \<exists>a b c d. r = [a, b, c, d]"
  by (auto simp: numeral_eq_Suc length_Suc_conv)

lemma list3: "length r = 3 \<Longrightarrow> \<exists>a b c. r = [a, b, c]"
  by (auto simp: numeral_eq_Suc length_Suc_conv)

lemma validMatrix_shape:
  assumes "validMatrix m"
  obtains a0 a1 a2 a3 b0 b1 b2 b3 c0 c1 c2 c3 where
    "m = [[a0, a1, a2, a3], [b0, b1, b2, b3], [c0, c1, c2, c3]]"
proof -
  from assms obtain r0 r1 r2 where m: "m = [r0, r1, r2]"
    unfolding validMatrix_def using list3 by blast
  with assms have "length r0 = 4" "length r1 = 4" "length r2 = 4"
    by (simp_all add: validMatrix_def)
  then show thesis using that m by (metis list4)
qed

lemma abilityCells_explicit:
  "abilityCells [[a0, a1, a2, a3], [b0, b1, b2, b3], [c0, c1, c2, c3]] =
    [\<lparr>ability = a0, gearType = HEAD, slotIndex = 0\<rparr>,
     \<lparr>ability = a1, gearType = HEAD, slotIndex = 1\<rparr>,
     \<lparr>ability = a2, gearType = HEAD, slotIndex = 2\<rparr>,
     \<lparr>ability = a3, gearType = HEAD, slotIndex = 3\<rparr>,
     \<lparr>ability = b0, gearType = CLOTHES, slotIndex = 0\<rparr>,
     \<lparr>ability = b1, gearType = CLOTHES, slotIndex = 1\<rparr>,
     \<lparr>ability = b2, gearType = CLOTHES, slotIndex = 2\<rparr>,
     \<lparr>ability = b3, gearType = CLOTHES, slotIndex = 3\<rparr>,
     \<lparr>ability = c0, gearType = SHOES, slotIndex = 0\<rparr>,
     \<lparr>ability = c1, gearType = SHOES, slotIndex = 1\<rparr>,
     \<lparr>ability = c2, gearType = SHOES, slotIndex = 2\<rparr>,
     \<lparr>ability = c3, gearType = SHOES, slotIndex = 3\<rparr>]"
  by (simp add: abilityCells_def entries_def rowGearType_def)

lemma abilityCells_keys:
  assumes "validMatrix m"
  shows "map abilityKey (abilityCells m) =
    [(0,0),(0,1),(0,2),(0,3),(1,0),(1,1),(1,2),(1,3),(2,0),(2,1),(2,2),(2,3)]"
proof -
  from assms obtain a0 a1 a2 a3 b0 b1 b2 b3 c0 c1 c2 c3 where
    "m = [[a0, a1, a2, a3], [b0, b1, b2, b3], [c0, c1, c2, c3]]"
    by (rule validMatrix_shape)
  then show ?thesis
    by (simp add: abilityCells_explicit abilityKey_def gearOrder_def)
qed

lemma abilityCells_abilities:
  assumes "validMatrix m"
  shows "map ability (abilityCells m) = concat m"
proof -
  from assms obtain a0 a1 a2 a3 b0 b1 b2 b3 c0 c1 c2 c3 where
    "m = [[a0, a1, a2, a3], [b0, b1, b2, b3], [c0, c1, c2, c3]]"
    by (rule validMatrix_shape)
  then show ?thesis
    by (simp add: abilityCells_explicit)
qed

lemma sorted_abilityCells:
  assumes "validMatrix m"
  shows "sorted (map abilityKey (abilityCells m))"
  by (simp add: abilityCells_keys [OF assms] less_eq_prod_def)

lemma distinct_abilityCells:
  assumes "validMatrix m"
  shows "distinct (map abilityKey (abilityCells m))"
  by (simp add: abilityCells_keys [OF assms])

lemma arraySort_permutation:
  assumes "validMatrix m" and "mset cells = mset (abilityCells m)"
  shows "arraySort compareAbilities cells = abilityCells m"
proof -
  have "inj_on abilityKey (set (abilityCells m))"
    using distinct_abilityCells [OF assms(1)] by (simp add: distinct_map)
  moreover have "set cells = set (abilityCells m)"
    using assms(2) by (rule mset_eq_setD)
  ultimately have "inj_on abilityKey (set cells)" by simp
  with assms(2) have "sort_key abilityKey cells = abilityCells m"
    using sorted_abilityCells [OF assms(1)] by (rule sort_key_inj_key_eq)
  then show ?thesis by (simp add: arraySort_abilities)
qed

lemma decode_permutation:
  assumes "validMatrix m" and "mset cells = mset (abilityCells m)"
  shows "dbAbilitiesToArrayOfArrays cells = Inr m"
proof -
  from assms(1) obtain a0 a1 a2 a3 b0 b1 b2 b3 c0 c1 c2 c3 where
    m: "m = [[a0, a1, a2, a3], [b0, b1, b2, b3], [c0, c1, c2, c3]]"
    by (rule validMatrix_shape)
  have "map ability (arraySort compareAbilities cells) = concat m"
    by (simp add: arraySort_permutation [OF assms] abilityCells_abilities [OF assms(1)])
  then show ?thesis
    by (simp add: dbAbilitiesToArrayOfArrays_def invariant_def m)
qed

text \<open>
  C1. Round trip. For every valid 3x4 matrix \<open>m\<close>, decoding any permutation
  of the twelve cells that the ability loop of \<open>create\<close> emits for \<open>m\<close>
  returns \<open>m\<close>: the decoder sorts, so the order of the cells does not matter.
\<close>

theorem decode_encode_roundtrip:
  assumes "validMatrix m" and "mset cells = mset (abilityCells m)"
  shows "dbAbilitiesToArrayOfArrays cells = Inr m"
  using assms by (rule decode_permutation)

theorem decode_encode_roundtrip_witness:
  "validMatrix [[''ISM'', ''ISS'', ''IRU'', ''RSU''], [''SSU'', ''SCU'', ''SS'', ''SPU''],
                [''QR'', ''QSJ'', ''BRU'', ''RES'']]
   \<and> mset (rev (abilityCells [[''ISM'', ''ISS'', ''IRU'', ''RSU''], [''SSU'', ''SCU'', ''SS'', ''SPU''],
                [''QR'', ''QSJ'', ''BRU'', ''RES'']]))
       = mset (abilityCells [[''ISM'', ''ISS'', ''IRU'', ''RSU''], [''SSU'', ''SCU'', ''SS'', ''SPU''],
                [''QR'', ''QSJ'', ''BRU'', ''RES'']])
   \<and> dbAbilitiesToArrayOfArrays
        (rev (abilityCells [[''ISM'', ''ISS'', ''IRU'', ''RSU''], [''SSU'', ''SCU'', ''SS'', ''SPU''],
                [''QR'', ''QSJ'', ''BRU'', ''RES'']]))
       = Inr [[''ISM'', ''ISS'', ''IRU'', ''RSU''], [''SSU'', ''SCU'', ''SS'', ''SPU''],
                [''QR'', ''QSJ'', ''BRU'', ''RES'']]"
proof -
  let ?m = "[[''ISM'', ''ISS'', ''IRU'', ''RSU''], [''SSU'', ''SCU'', ''SS'', ''SPU''],
             [''QR'', ''QSJ'', ''BRU'', ''RES'']]"
  have v: "validMatrix ?m" by (simp add: validMatrix_def)
  have p: "mset (rev (abilityCells ?m)) = mset (abilityCells ?m)" by simp
  from v p decode_encode_roundtrip [OF v p] show ?thesis by blast
qed

lemma decode_length:
  "length cells = 12 \<Longrightarrow> \<exists>m. dbAbilitiesToArrayOfArrays cells = Inr m \<and> validMatrix m"
  by (simp add: dbAbilitiesToArrayOfArrays_def invariant_def length_arraySort validMatrix_def)

lemma decode_wrong_length:
  "length cells \<noteq> 12 \<Longrightarrow>
     dbAbilitiesToArrayOfArrays cells = Inl (InvariantFailed ''expected 12 abilities'')"
  by (simp add: dbAbilitiesToArrayOfArrays_def invariant_def length_arraySort)

text \<open>
  C3. Shape invariant. Decoding a collection whose length is not 12 (11 or
  13, for instance) fails with the invariant error; decoding a collection of
  exactly 12 cells returns a matrix.
\<close>

theorem decode_shape_invariant:
  "(length cells \<noteq> 12 \<longrightarrow>
      dbAbilitiesToArrayOfArrays cells = Inl (InvariantFailed ''expected 12 abilities''))
   \<and> (length cells = 12 \<longrightarrow> (\<exists>m. dbAbilitiesToArrayOfArrays cells = Inr m))"
  using decode_length [of cells] decode_wrong_length [of cells] by blast

theorem decode_shape_invariant_witness:
  "length (replicate 11 \<lparr>ability = ''ISM'', gearType = HEAD, slotIndex = 0\<rparr>) \<noteq> 12
   \<and> dbAbilitiesToArrayOfArrays (replicate 11 \<lparr>ability = ''ISM'', gearType = HEAD, slotIndex = 0\<rparr>)
       = Inl (InvariantFailed ''expected 12 abilities'')
   \<and> length (replicate 13 \<lparr>ability = ''ISM'', gearType = HEAD, slotIndex = 0\<rparr>) \<noteq> 12
   \<and> dbAbilitiesToArrayOfArrays (replicate 13 \<lparr>ability = ''ISM'', gearType = HEAD, slotIndex = 0\<rparr>)
       = Inl (InvariantFailed ''expected 12 abilities'')
   \<and> length (abilityCells [[''ISM'', ''ISS'', ''IRU'', ''RSU''], [''SSU'', ''SCU'', ''SS'', ''SPU''],
                [''QR'', ''QSJ'', ''BRU'', ''RES'']]) = 12
   \<and> (\<exists>m. dbAbilitiesToArrayOfArrays
             (abilityCells [[''ISM'', ''ISS'', ''IRU'', ''RSU''], [''SSU'', ''SCU'', ''SS'', ''SPU''],
                [''QR'', ''QSJ'', ''BRU'', ''RES'']]) = Inr m)"
  using decode_shape_invariant [of "replicate 11 \<lparr>ability = ''ISM'', gearType = HEAD, slotIndex = 0\<rparr>"]
        decode_shape_invariant [of "replicate 13 \<lparr>ability = ''ISM'', gearType = HEAD, slotIndex = 0\<rparr>"]
        decode_shape_invariant [of "abilityCells [[''ISM'', ''ISS'', ''IRU'', ''RSU''],
                [''SSU'', ''SCU'', ''SS'', ''SPU''], [''QR'', ''QSJ'', ''BRU'', ''RES'']]"]
  by (simp add: abilityCells_explicit)

text \<open>
  C10. The decoder throws if and only if the length of its input is not 12.
  Twelve cells always decode to a 3x4 matrix, whatever their gear types and
  slot indices are: duplicates and gaps among the (gearType, slotIndex) pairs
  are not checked.
\<close>

theorem decode_fails_iff_not_12:
  "((\<exists>e. dbAbilitiesToArrayOfArrays cells = Inl e) = (length cells \<noteq> 12))
   \<and> (length cells = 12 \<longrightarrow>
        (\<exists>m. dbAbilitiesToArrayOfArrays cells = Inr m \<and> validMatrix m))"
  using decode_length [of cells] decode_wrong_length [of cells] by auto

lemma decode_duplicates:
  "dbAbilitiesToArrayOfArrays (replicate 12 \<lparr>ability = ''ISM'', gearType = HEAD, slotIndex = 0\<rparr>)
     = Inr [[''ISM'', ''ISM'', ''ISM'', ''ISM''], [''ISM'', ''ISM'', ''ISM'', ''ISM''],
            [''ISM'', ''ISM'', ''ISM'', ''ISM'']]"
  by (simp add: dbAbilitiesToArrayOfArrays_def invariant_def arraySort_def compareAbilities_def
        numeral_eq_Suc)

theorem decode_fails_iff_not_12_witness:
  "length (replicate 12 \<lparr>ability = ''ISM'', gearType = HEAD, slotIndex = 0\<rparr>) = 12
   \<and> \<not> distinct (map (\<lambda>c. (gearType c, slotIndex c))
          (replicate 12 \<lparr>ability = ''ISM'', gearType = HEAD, slotIndex = 0\<rparr>))
   \<and> (\<exists>m. dbAbilitiesToArrayOfArrays
            (replicate 12 \<lparr>ability = ''ISM'', gearType = HEAD, slotIndex = 0\<rparr>) = Inr m
          \<and> validMatrix m)
   \<and> \<not> (\<exists>e. dbAbilitiesToArrayOfArrays
            (replicate 12 \<lparr>ability = ''ISM'', gearType = HEAD, slotIndex = 0\<rparr>) = Inl e)"
  using decode_fails_iff_not_12 [of "replicate 12 \<lparr>ability = ''ISM'', gearType = HEAD, slotIndex = 0\<rparr>"]
  by (simp add: numeral_eq_Suc)


subsection \<open>Mode encoding\<close>

lemma indexOf_nonneg: "x \<in> set xs \<Longrightarrow> 0 \<le> indexOf xs x"
  by (induction xs) (auto simp: Let_def)

lemma indexOf_nth: "x \<in> set xs \<Longrightarrow> xs ! nat (indexOf xs x) = x"
proof (induction xs)
  case Nil
  then show ?case by simp
next
  case (Cons y ys)
  show ?case
  proof (cases "y = x")
    case True
    then show ?thesis by simp
  next
    case False
    with Cons.prems have mem: "x \<in> set ys" by simp
    from indexOf_nonneg [OF mem] have "nat (indexOf ys x + 1) = Suc (nat (indexOf ys x))"
      by simp
    with False mem Cons.IH indexOf_nonneg [OF mem] show ?thesis
      by (simp add: Let_def)
  qed
qed

lemma inj_on_indexOf: "inj_on (indexOf xs) (set xs)"
  by (rule inj_onI) (metis indexOf_nth)

lemma arraySort_by_index:
  "arraySort (\<lambda>a b. indexOf ms a - indexOf ms b) xs = sort_key (indexOf ms) xs"
  by (rule arraySort_sort_key) simp

lemma sort_modes_permutation:
  assumes "set xs \<subseteq> set ms" and "mset xs = mset ys"
  shows "sort_key (indexOf ms) xs = sort_key (indexOf ms) ys"
proof -
  from assms(1) have "inj_on (indexOf ms) (set xs)"
    by (rule inj_on_subset [OF inj_on_indexOf])
  with assms(2) show ?thesis by (rule sort_key_eq_sort_key)
qed

text \<open>
  C5, as stated: two mode lists that are equal as sets are serialized to the
  same value. It fails when a mode is repeated: the lists \<open>[SZ, TW, SZ]\<close> and
  \<open>[TW, SZ]\<close> are equal as sets, and the first is serialized with its three
  elements, since \<open>create\<close> sorts and removes nothing.
\<close>

theorem mode_encoding_counterexample:
  "set [''SZ'', ''TW'', ''SZ''] = set [''TW'', ''SZ'']
   \<and> encodeModes exampleCatalog exampleJson (Some [''SZ'', ''TW'', ''SZ'']) = Some ''[TW,SZ,SZ,]''
   \<and> encodeModes exampleCatalog exampleJson (Some [''TW'', ''SZ'']) = Some ''[TW,SZ,]''
   \<and> encodeModes exampleCatalog exampleJson (Some [''SZ'', ''TW'', ''SZ''])
       \<noteq> encodeModes exampleCatalog exampleJson (Some [''TW'', ''SZ''])"
proof -
  have s: "set [''SZ'', ''TW'', ''SZ''] = set [''TW'', ''SZ'']" by auto
  have a: "encodeModes exampleCatalog exampleJson (Some [''SZ'', ''TW'', ''SZ'']) =
      Some ''[TW,SZ,SZ,]''"
    by (simp add: encodeModes_def exampleCatalog_def exampleJson_def arraySort_def)
  have b: "encodeModes exampleCatalog exampleJson (Some [''TW'', ''SZ'']) = Some ''[TW,SZ,]''"
    by (simp add: encodeModes_def exampleCatalog_def exampleJson_def arraySort_def)
  from s a b show ?thesis by simp
qed

text \<open>
  C5, amended. Mode encoding is canonical for lists that differ in order only.
  Two mode lists with the same elements the same number of times (in
  particular two lists without repetition that are equal as sets), all of them
  modes of the ordering table, as the type \<open>ModeShort\<close> says, are serialized
  to the same value: what is serialized is the list sorted by position in
  \<open>modesShort\<close>. An absent or empty mode list is encoded as null.
\<close>

theorem mode_encoding_canonical:
  "(set xs \<subseteq> set (modesShort cat)
      \<and> (mset xs = mset ys \<or> distinct xs \<and> distinct ys \<and> set xs = set ys) \<longrightarrow>
      encodeModes cat js (Some xs) = encodeModes cat js (Some ys))
   \<and> (xs \<noteq> [] \<longrightarrow>
        (\<exists>zs. encodeModes cat js (Some xs) = Some (stringify js zs)
           \<and> mset zs = mset xs \<and> sorted (map (indexOf (modesShort cat)) zs)))
   \<and> encodeModes cat js None = None
   \<and> encodeModes cat js (Some []) = None"
proof (intro conjI impI)
  assume h: "set xs \<subseteq> set (modesShort cat)
      \<and> (mset xs = mset ys \<or> distinct xs \<and> distinct ys \<and> set xs = set ys)"
  then have p: "mset xs = mset ys" by (auto simp: set_eq_iff_mset_eq_distinct)
  then have "length xs = length ys" by (metis size_mset)
  with h p show "encodeModes cat js (Some xs) = encodeModes cat js (Some ys)"
    by (simp add: encodeModes_def arraySort_by_index sort_modes_permutation [of xs _ ys])
next
  assume "xs \<noteq> []"
  then have "encodeModes cat js (Some xs) =
      Some (stringify js (sort_key (indexOf (modesShort cat)) xs))"
    by (simp add: encodeModes_def arraySort_by_index)
  moreover have "mset (sort_key (indexOf (modesShort cat)) xs) = mset xs" by simp
  moreover have "sorted (map (indexOf (modesShort cat)) (sort_key (indexOf (modesShort cat)) xs))"
    by (rule sorted_sort_key)
  ultimately show "\<exists>zs. encodeModes cat js (Some xs) = Some (stringify js zs)
      \<and> mset zs = mset xs \<and> sorted (map (indexOf (modesShort cat)) zs)"
    by blast
qed (simp_all add: encodeModes_def)

theorem mode_encoding_canonical_witness:
  "set [''SZ'', ''TW''] \<subseteq> set (modesShort exampleCatalog)
   \<and> mset [''SZ'', ''TW''] = mset [''TW'', ''SZ'']
   \<and> encodeModes exampleCatalog exampleJson (Some [''SZ'', ''TW''])
       = encodeModes exampleCatalog exampleJson (Some [''TW'', ''SZ''])
   \<and> encodeModes exampleCatalog exampleJson (Some [''TW'', ''SZ'']) = Some ''[TW,SZ,]''"
proof -
  have a: "set [''SZ'', ''TW''] \<subseteq> set (modesShort exampleCatalog)"
    by (simp add: exampleCatalog_def)
  have b: "mset [''SZ'', ''TW''] = mset [''TW'', ''SZ'']" by simp
  have c: "encodeModes exampleCatalog exampleJson (Some [''TW'', ''SZ'']) = Some ''[TW,SZ,]''"
    by (simp add: encodeModes_def exampleCatalog_def exampleJson_def arraySort_def)
  from a b c mode_encoding_canonical [of "[''SZ'', ''TW'']" exampleCatalog "[''TW'', ''SZ'']" exampleJson]
  show ?thesis by blast
qed

subsection \<open>Reading\<close>

text \<open>
  C8. When the count statement returns, \<open>countByUserId\<close> returns an
  integer: the count of the row that the statement yields, and 0 when the
  statement yields no row, or a row whose count is null or 0, which is how "no
  builds match" reaches this function.
\<close>

theorem countByUserId_zero:
  "countByUserIdStm eng userId loggedInUserId d = Inr r \<Longrightarrow>
     (\<exists>n. countByUserId eng userId loggedInUserId d = Inr n)
     \<and> (r = None \<or> r = Some \<lparr>count' = None\<rparr> \<or> r = Some \<lparr>count' = Some 0\<rparr> \<longrightarrow>
          countByUserId eng userId loggedInUserId d = Inr 0)
     \<and> (r = Some \<lparr>count' = Some n\<rparr> \<longrightarrow>
          countByUserId eng userId loggedInUserId d = Inr n)"
  by (auto simp: countByUserId_def split: option.splits)

theorem countByUserId_zero_witness:
  "countByUserIdStm exampleEngine 7 None exampleStore = Inr (Some \<lparr>count' = Some 0\<rparr>)
   \<and> countByUserId exampleEngine 7 None exampleStore = Inr 0
   \<and> countByUserIdStm exampleEngine 7 None exampleStoreWithBuild = Inr (Some \<lparr>count' = Some 1\<rparr>)
   \<and> countByUserId exampleEngine 7 None exampleStoreWithBuild = Inr 1"
  using countByUserId_zero [of exampleEngine 7 None exampleStore "Some \<lparr>count' = Some 0\<rparr>" 0]
    countByUserId_zero [of exampleEngine 7 None exampleStoreWithBuild "Some \<lparr>count' = Some 1\<rparr>" 1]
  by (simp add: exampleEngine_def exampleStore_def exampleStoreWithBuild_def)

text \<open>
  What \<open>buildsByWeaponId\<close> binds for a weapon identifier that has no entry in
  \<open>weaponIdToAltId\<close>: the same three parameters, the alternate one being
  \<open>- 1\<close>.
\<close>

lemma buildsByWeaponId_no_alternate:
  "weaponIdToAltId cat wid = None \<Longrightarrow>
     buildsByWeaponIdArgs cat wid rowLimit = \<lparr>weaponId = wid, altWeaponId = - 1, limit = rowLimit\<rparr>
     \<and> buildsByWeaponId eng cat js wid rowLimit d =
         (case buildsByWeaponIdStm eng \<lparr>weaponId = wid, altWeaponId = - 1, limit = rowLimit\<rparr> d of
            Inl e \<Rightarrow> Inl e
          | Inr rows \<Rightarrow> mapRows (augmentBuild js) rows)"
  by (simp add: buildsByWeaponIdArgs_def buildsByWeaponId_def)









subsection \<open>The loops of create\<close>

lemma andThen_assoc:
  "andThen (andThen m k) h = andThen m (\<lambda>v. andThen (k v) h)"
  by (rule ext) (simp add: andThen_def split: prod.splits sum.splits)

lemma forEach_Nil: "forEach [] body = (\<lambda>d. (Inr (), d, []))"
  by (rule ext) simp

lemma forEach_Cons: "forEach (x # xs) body = andThen (body x) (\<lambda>_. forEach xs body)"
  by (rule ext) simp

lemma return_andThen: "andThen (\<lambda>d. (Inr v, d, [])) k = k v"
  by (rule ext) (simp add: andThen_def split: prod.splits)

lemma andThen_Inl:
  "m d = (Inl e, d1, evs) \<Longrightarrow> andThen m k d = (Inl e, d1, evs)"
  by (simp add: andThen_def)

lemma andThen_Inr:
  "m d = (Inr v, d1, evs) \<Longrightarrow>
     andThen m k d = (outcome (k v d1), dataAfter (k v d1), evs @ eventsOf (k v d1))"
  by (simp add: andThen_def outcome_def dataAfter_def eventsOf_def split: prod.splits)

lemma exec_Inl: "runStm eng call d = (Inl e, d1) \<Longrightarrow> exec eng call d = (Inl e, d1, [Failed call])"
  by (simp add: exec_def)

lemma exec_Inr: "runStm eng call d = (Inr v, d1) \<Longrightarrow> exec eng call d = (Inr v, d1, [Ran call])"
  by (simp add: exec_def)

lemma forEach_append:
  "forEach (xs @ ys) body = andThen (forEach xs body) (\<lambda>_. forEach ys body)"
proof (induction xs)
  case Nil
  show ?case by (simp add: forEach_Nil return_andThen)
next
  case (Cons x xs)
  then show ?case by (simp add: forEach_Cons andThen_assoc)
qed

lemma forEach_map: "forEach (map h xs) body = forEach xs (\<lambda>x. body (h x))"
  by (induction xs) (simp_all add: forEach_Cons forEach_Nil)

lemma forEach_concat:
  "forEach (concat (map g xs)) body = forEach xs (\<lambda>x. forEach (g x) body)"
  by (induction xs) (simp_all add: forEach_Cons forEach_Nil forEach_append)

lemma createdBuildId_Some: "andThen (createdBuildId (Some i)) k = k i"
  by (simp add: createdBuildId_def return_andThen)

lemma createAbilities_cells:
  "createAbilities eng (Some buildId) matrix =
     forEach (abilityCells matrix)
       (\<lambda>c. exec eng (CreateBuildAbility buildId (gearType c) (ability c) (slotIndex c)))"
  by (simp add: createAbilities_def abilityCells_def forEach_concat forEach_map split_def
        createdBuildId_Some)

lemma forEach_exec_events:
  "outcome (forEach cs (\<lambda>c. exec eng (call c)) d) = Inr () \<Longrightarrow>
     eventsOf (forEach cs (\<lambda>c. exec eng (call c)) d) = map (\<lambda>c. Ran (call c)) cs"
proof (induction cs arbitrary: d)
  case Nil
  show ?case by (simp add: eventsOf_def)
next
  case (Cons c cs)
  obtain r d1 where run: "runStm eng (call c) d = (r, d1)" by (cases "runStm eng (call c) d")
  show ?case
  proof (cases r)
    case (Inl e)
    with run have "exec eng (call c) d = (Inl e, d1, [Failed (call c)])"
      by (simp add: exec_Inl)
    from andThen_Inl [where m = "exec eng (call c)" and d = d
        and k = "\<lambda>_. forEach cs (\<lambda>c. exec eng (call c))", OF this] Cons.prems
    show ?thesis
      by (simp add: outcome_def)
  next
    case (Inr v)
    with run have ex: "exec eng (call c) d = (Inr v, d1, [Ran (call c)])"
      by (simp add: exec_Inr)
    note step = andThen_Inr [where m = "exec eng (call c)" and d = d
        and k = "\<lambda>_. forEach cs (\<lambda>c. exec eng (call c))", OF ex]
    from Cons.prems step have "outcome (forEach cs (\<lambda>c. exec eng (call c)) d1) = Inr ()"
      by (simp add: outcome_def)
    from Cons.IH [OF this] step show ?thesis
      by (simp add: eventsOf_def)
  qed
qed

lemma abilityCells_nth:
  assumes "validMatrix m" and "r < 3" and "c < 4"
  shows "abilityCells m ! (4 * r + c) =
           \<lparr>ability = m ! r ! c, gearType = gearOrder ! r, slotIndex = int c\<rparr>"
proof -
  from assms(1) obtain a0 a1 a2 a3 b0 b1 b2 b3 c0 c1 c2 c3 where
    m: "m = [[a0, a1, a2, a3], [b0, b1, b2, b3], [c0, c1, c2, c3]]"
    by (rule validMatrix_shape)
  from assms(2) have r: "r = 0 \<or> r = 1 \<or> r = 2" by arith
  from assms(3) have c: "c = 0 \<or> c = 1 \<or> c = 2 \<or> c = 3" by arith
  from r c show ?thesis
    by (auto simp: m abilityCells_explicit gearOrder_def)
qed

lemma length_abilityCells: "validMatrix m \<Longrightarrow> length (abilityCells m) = 12"
  by (erule validMatrix_shape) (simp add: abilityCells_explicit)

subsection \<open>Atomicity\<close>

lemma anyFailed_append: "anyFailed (xs @ ys) = (anyFailed xs \<or> anyFailed ys)"
  by (simp add: anyFailed_def)

lemma propagates_exec: "propagates (exec eng call)"
  by (auto simp: propagates_def exec_def anyFailed_def eventsOf_def outcome_def
      split: prod.splits sum.splits)

lemma propagates_throw: "propagates (throw e)"
  by (simp add: propagates_def throw_def anyFailed_def eventsOf_def)

lemma propagates_return: "propagates (\<lambda>d. (Inr v, d, []))"
  by (simp add: propagates_def anyFailed_def eventsOf_def)

lemma propagates_andThen:
  assumes "propagates m" and "\<And>v. propagates (k v)"
  shows "propagates (andThen m k)"
  unfolding propagates_def
proof (intro allI impI)
  fix d
  assume f: "anyFailed (eventsOf (andThen m k d))"
  obtain r d1 evs where md: "m d = (r, d1, evs)" by (cases "m d")
  show "isl (outcome (andThen m k d))"
  proof (cases r)
    case (Inl e)
    with md show ?thesis by (simp add: andThen_def outcome_def)
  next
    case (Inr v)
    with md have eq: "andThen m k d =
        (outcome (k v d1), dataAfter (k v d1), evs @ eventsOf (k v d1))"
      by (simp add: andThen_Inr)
    from assms(1) have "anyFailed (eventsOf (m d)) \<longrightarrow> isl (outcome (m d))"
      by (simp add: propagates_def)
    with md Inr have "\<not> anyFailed evs"
      by (simp add: eventsOf_def outcome_def)
    with f eq have "anyFailed (eventsOf (k v d1))"
      by (simp add: eventsOf_def anyFailed_append)
    with assms(2) [of v] have "isl (outcome (k v d1))" by (simp add: propagates_def)
    with eq show ?thesis by (simp add: outcome_def)
  qed
qed

lemma propagates_forEach:
  assumes "\<And>x. propagates (body x)"
  shows "propagates (forEach xs body)"
proof (induction xs)
  case Nil
  show ?case by (simp add: forEach_Nil propagates_return)
next
  case (Cons x xs)
  then show ?case by (simp add: forEach_Cons propagates_andThen assms)
qed

lemma propagates_createdBuildId: "propagates (createdBuildId createdBuild)"
  by (cases createdBuild) (simp_all add: createdBuildId_def propagates_throw propagates_return)

lemma propagates_createFn: "propagates (createFn eng cat js build)"
  unfolding createFn_def createWeapons_def createAbilities_def
  by (intro propagates_andThen propagates_forEach propagates_exec propagates_createdBuildId)
     (simp_all add: split_def propagates_forEach propagates_andThen propagates_exec
        propagates_createdBuildId)

lemma anyFailed_nested: "anyFailed (map nested evs) = anyFailed evs"
proof (induction evs)
  case Nil
  show ?case by simp
next
  case (Cons e evs)
  then show ?case by (cases e) (simp_all add: anyFailed_def)
qed

lemma transaction_results:
  "outcome (transaction fn d) = outcome (fn d)"
  "anyFailed (eventsOf (transaction fn d)) = anyFailed (eventsOf (fn d))"
  "isl (outcome (fn d)) \<Longrightarrow> dataAfter (transaction fn d) = d"
  "\<not> isl (outcome (fn d)) \<Longrightarrow> dataAfter (transaction fn d) = dataAfter (fn d)"
  using anyFailed_nested [of "eventsOf (fn d)"]
  by (auto simp: transaction_def outcome_def eventsOf_def dataAfter_def anyFailed_def
      split: prod.splits sum.splits)

lemma propagates_transaction: "propagates fn \<Longrightarrow> propagates (transaction fn)"
  by (simp add: propagates_def transaction_results)

lemma propagates_create: "propagates (create eng cat js build)"
  by (simp add: create_def propagates_transaction propagates_createFn)

lemma propagates_updateByReplacing: "propagates (updateByReplacing eng cat js build)"
  by (simp add: updateByReplacing_def propagates_transaction propagates_andThen
      propagates_exec propagates_create)

lemma transaction_atomic:
  "isl (outcome (transaction fn d)) \<Longrightarrow> dataAfter (transaction fn d) = d"
  by (simp add: transaction_results)

text \<open>
  C2. \<open>create\<close> and \<open>updateByReplacing\<close> are atomic. If any statement of
  the sequence fails, the operation throws; and whenever it throws, the stored
  data after it are the stored data before it: no row of the failed operation
  stays, and the build that \<open>updateByReplacing\<close> deleted is back.
\<close>

theorem writes_atomic:
  "(anyFailed (eventsOf (create eng cat js build d)) \<longrightarrow>
      isl (outcome (create eng cat js build d)))
   \<and> (isl (outcome (create eng cat js build d)) \<longrightarrow>
      dataAfter (create eng cat js build d) = d)
   \<and> (anyFailed (eventsOf (updateByReplacing eng cat js build' d)) \<longrightarrow>
      isl (outcome (updateByReplacing eng cat js build' d)))
   \<and> (isl (outcome (updateByReplacing eng cat js build' d)) \<longrightarrow>
      dataAfter (updateByReplacing eng cat js build' d) = d)"
  using propagates_create [of eng cat js build] propagates_updateByReplacing [of eng cat js build']
  by (simp add: propagates_def create_def updateByReplacing_def transaction_atomic)




lemma example_create_fails:
  "create exampleEngine exampleCatalog exampleJson (exampleBuild [40, - 1]) d =
     (Inl (StorageFailure ''CHECK constraint failed''), d,
      [Begin,
       Ran (CreateBuild 7 ''Test'' None (Some ''[TW,SZ,]'') 1 2 3 0),
       Ran (CreateBuildWeapon (lastId d + 1) 40),
       Failed (CreateBuildWeapon (lastId d + 1) (- 1)),
       Rollback])"
  by (simp add: create_def transaction_def createFn_def createWeapons_def andThen_def exec_def
      createdBuildId_def exampleEngine_def exampleBuild_def encodeModes_def exampleCatalog_def
      exampleJson_def arraySort_def)

lemma example_update_fails:
  "updateByReplacing exampleEngine exampleCatalog exampleJson (exampleBuild [- 1])
       exampleStoreWithBuild =
     (Inl (StorageFailure ''CHECK constraint failed''), exampleStoreWithBuild,
      [Begin,
       Ran (DeleteById 1),
       Savepoint,
       Ran (CreateBuild 7 ''Test'' None (Some ''[TW,SZ,]'') 1 2 3 0),
       Failed (CreateBuildWeapon 2 (- 1)),
       RollbackTo,
       Rollback])"
  by (simp add: updateByReplacing_def create_def transaction_def createFn_def createWeapons_def
      andThen_def exec_def createdBuildId_def exampleEngine_def exampleBuild_def encodeModes_def
      exampleCatalog_def exampleJson_def arraySort_def exampleStoreWithBuild_def)

theorem writes_atomic_witness:
  "anyFailed (eventsOf (create exampleEngine exampleCatalog exampleJson
        (exampleBuild [40, - 1]) exampleStore))
   \<and> isl (outcome (create exampleEngine exampleCatalog exampleJson
        (exampleBuild [40, - 1]) exampleStore))
   \<and> dataAfter (create exampleEngine exampleCatalog exampleJson
        (exampleBuild [40, - 1]) exampleStore) = exampleStore
   \<and> anyFailed (eventsOf (updateByReplacing exampleEngine exampleCatalog exampleJson
        (exampleBuild [- 1]) exampleStoreWithBuild))
   \<and> isl (outcome (updateByReplacing exampleEngine exampleCatalog exampleJson
        (exampleBuild [- 1]) exampleStoreWithBuild))
   \<and> dataAfter (updateByReplacing exampleEngine exampleCatalog exampleJson
        (exampleBuild [- 1]) exampleStoreWithBuild) = exampleStoreWithBuild"
proof -
  have a: "anyFailed (eventsOf (create exampleEngine exampleCatalog exampleJson
        (exampleBuild [40, - 1]) exampleStore))"
    by (simp add: example_create_fails eventsOf_def anyFailed_def)
  have b: "anyFailed (eventsOf (updateByReplacing exampleEngine exampleCatalog exampleJson
        (exampleBuild [- 1]) exampleStoreWithBuild))"
    by (simp add: example_update_fails eventsOf_def anyFailed_def)
  from a writes_atomic [where eng = exampleEngine and cat = exampleCatalog
      and js = exampleJson and build = "exampleBuild [40, - 1]" and d = exampleStore]
  have c: "isl (outcome (create exampleEngine exampleCatalog exampleJson
        (exampleBuild [40, - 1]) exampleStore))
    \<and> dataAfter (create exampleEngine exampleCatalog exampleJson
        (exampleBuild [40, - 1]) exampleStore) = exampleStore"
    by blast
  from b writes_atomic [where eng = exampleEngine and cat = exampleCatalog
      and js = exampleJson and build' = "exampleBuild [- 1]" and d = exampleStoreWithBuild]
  have u: "isl (outcome (updateByReplacing exampleEngine exampleCatalog exampleJson
        (exampleBuild [- 1]) exampleStoreWithBuild))
    \<and> dataAfter (updateByReplacing exampleEngine exampleCatalog exampleJson
        (exampleBuild [- 1]) exampleStoreWithBuild) = exampleStoreWithBuild"
    by blast
  from a b c u show ?thesis by blast
qed



subsection \<open>Open transactions\<close>

lemma peakOpen_ge: "n \<le> peakOpen n evs"
  by (induction evs arbitrary: n) (simp_all add: max.coboundedI1)

lemma peakOpen_statements:
  "statementsOnly evs \<Longrightarrow> peakOpen n (evs @ after) = peakOpen n after"
proof (induction evs)
  case Nil
  show ?case by simp
next
  case (Cons e evs)
  then have "openAfter n e = n" by (cases e) (simp_all add: statementsOnly_def)
  with Cons peakOpen_ge [of n after] show ?case
    by (simp add: statementsOnly_def max_absorb2)
qed

lemma statementsOnly_nested: "statementsOnly (map nested evs)"
proof (induction evs)
  case Nil
  show ?case by (simp add: statementsOnly_def)
next
  case (Cons e evs)
  then show ?case by (cases e) (simp_all add: statementsOnly_def)
qed

lemma begun_nested: "begun (map nested evs) = 0"
proof (induction evs)
  case Nil
  show ?case by (simp add: begun_def)
next
  case (Cons e evs)
  then show ?case by (cases e) (simp_all add: begun_def)
qed

lemma begun_append: "begun (xs @ ys) = begun xs + begun ys"
  by (simp add: begun_def)

lemma transaction_events:
  "eventsOf (transaction fn d) =
     Begin # map nested (eventsOf (fn d)) @ [if isl (outcome (fn d)) then Rollback else Commit]"
  by (cases "fn d" rule: prod_cases3; cases "outcome (fn d)")
     (simp_all add: transaction_def eventsOf_def outcome_def)

lemma peakOpen_transaction: "peakOpen 0 (eventsOf (transaction fn d)) = 1"
proof -
  have "peakOpen (Suc 0) (map nested (eventsOf (fn d))
          @ [if isl (outcome (fn d)) then Rollback else Commit]) =
        peakOpen (Suc 0) [if isl (outcome (fn d)) then Rollback else Commit]"
    by (rule peakOpen_statements) (rule statementsOnly_nested)
  then show ?thesis by (simp add: transaction_events)
qed

lemma begun_transaction: "begun (eventsOf (transaction fn d)) = 1"
proof -
  have "begun (Begin # map nested (eventsOf (fn d))
          @ [if isl (outcome (fn d)) then Rollback else Commit]) =
        Suc (begun (map nested (eventsOf (fn d)))
          + begun [if isl (outcome (fn d)) then Rollback else Commit])"
    by (simp add: begun_def)
  then show ?thesis by (simp add: transaction_events begun_nested) (simp add: begun_def)
qed

lemma deleteById_events:
  "eventsOf (deleteById eng buildId d) = [Ran (DeleteById buildId)]
   \<or> eventsOf (deleteById eng buildId d) = [Failed (DeleteById buildId)]"
  by (cases "runStm eng (DeleteById buildId) d" rule: prod.exhaust;
      cases "fst (runStm eng (DeleteById buildId) d)")
     (simp_all add: deleteById_def andThen_def exec_def eventsOf_def)

lemma updateByReplacing_savepoint:
  assumes "\<not> isl (fst (runStm eng (DeleteById (id' build)) d))"
  shows "Savepoint \<in> set (eventsOf (updateByReplacing eng cat js build d))"
proof -
  obtain r d1 where run: "runStm eng (DeleteById (id' build)) d = (r, d1)"
    by (cases "runStm eng (DeleteById (id' build)) d")
  with assms obtain v where r: "r = Inr v" by (cases r) simp_all
  with run have ex: "exec eng (DeleteById (id' build)) d = (Inr v, d1, [Ran (DeleteById (id' build))])"
    by (simp add: exec_Inr)
  note step = andThen_Inr [where m = "exec eng (DeleteById (id' build))" and d = d
      and k = "\<lambda>_. create eng cat js build", OF ex]
  have "Begin \<in> set (eventsOf (create eng cat js build d1))"
    by (simp add: create_def transaction_events)
  then have "Begin \<in> set (eventsOf (andThen (exec eng (DeleteById (id' build)))
      (\<lambda>_. create eng cat js build) d))"
    by (simp add: step eventsOf_def)
  then have "nested Begin \<in> nested ` set (eventsOf (andThen (exec eng (DeleteById (id' build)))
      (\<lambda>_. create eng cat js build) d))"
    by (rule imageI)
  then show ?thesis
    by (simp add: updateByReplacing_def transaction_events)
qed

lemma example_update_ok:
  "updateByReplacing exampleEngine exampleCatalog exampleJson (exampleBuild [40])
       exampleStoreWithBuild =
     (Inr (),
      \<lparr>lastId = 2, buildRows = [(2, 7, ''Test'')], weaponRows = [(2, 40)],
       abilityRows = map (Pair 2) (abilityCells exampleMatrix)\<rparr>,
      Begin # Ran (DeleteById 1) # Savepoint
        # Ran (CreateBuild 7 ''Test'' None (Some ''[TW,SZ,]'') 1 2 3 0)
        # Ran (CreateBuildWeapon 2 40)
        # map (ranCell 2) (abilityCells exampleMatrix) @ [Release, Commit])"
  by (simp add: updateByReplacing_def create_def transaction_def createFn_def createWeapons_def
      createAbilities_def entries_def andThen_def exec_def createdBuildId_def exampleEngine_def
      exampleBuild_def encodeModes_def exampleCatalog_def exampleJson_def arraySort_def
      exampleStoreWithBuild_def exampleMatrix_def abilityCells_explicit ranCell_def
      rowGearType_def)

text \<open>
  C9. No operation begins a second transaction while one is open. \<open>create\<close>
  and \<open>updateByReplacing\<close> each begin exactly one transaction and never have
  more than one open; \<open>deleteById\<close> begins none. The \<open>create\<close> that
  \<open>updateByReplacing\<close> calls once its delete statement has succeeded runs
  inside the transaction of \<open>updateByReplacing\<close>, where its start is a mark
  and not the beginning of another transaction.
\<close>

theorem single_transaction:
  "peakOpen 0 (eventsOf (create eng cat js build d)) = 1
   \<and> begun (eventsOf (create eng cat js build d)) = 1
   \<and> peakOpen 0 (eventsOf (updateByReplacing eng cat js build' d)) = 1
   \<and> begun (eventsOf (updateByReplacing eng cat js build' d)) = 1
   \<and> (\<not> isl (fst (runStm eng (DeleteById (id' build')) d)) \<longrightarrow>
        Savepoint \<in> set (eventsOf (updateByReplacing eng cat js build' d)))
   \<and> peakOpen 0 (eventsOf (deleteById eng buildId d)) = 0
   \<and> begun (eventsOf (deleteById eng buildId d)) = 0"
proof (intro conjI impI)
  show "peakOpen 0 (eventsOf (create eng cat js build d)) = 1"
    unfolding create_def by (rule peakOpen_transaction)
  show "begun (eventsOf (create eng cat js build d)) = 1"
    unfolding create_def by (rule begun_transaction)
  show "peakOpen 0 (eventsOf (updateByReplacing eng cat js build' d)) = 1"
    unfolding updateByReplacing_def by (rule peakOpen_transaction)
  show "begun (eventsOf (updateByReplacing eng cat js build' d)) = 1"
    unfolding updateByReplacing_def by (rule begun_transaction)
  show "Savepoint \<in> set (eventsOf (updateByReplacing eng cat js build' d))"
    if "\<not> isl (fst (runStm eng (DeleteById (id' build')) d))"
    using that by (rule updateByReplacing_savepoint)
  show "peakOpen 0 (eventsOf (deleteById eng buildId d)) = 0"
    using deleteById_events [of eng buildId d] by auto
  show "begun (eventsOf (deleteById eng buildId d)) = 0"
    using deleteById_events [of eng buildId d] by (auto simp: begun_def)
qed

theorem single_transaction_witness:
  "\<not> isl (fst (runStm exampleEngine (DeleteById (id' (exampleBuild [40]))) exampleStoreWithBuild))
   \<and> Savepoint \<in> set (eventsOf (updateByReplacing exampleEngine exampleCatalog exampleJson
        (exampleBuild [40]) exampleStoreWithBuild))
   \<and> peakOpen 0 (eventsOf (updateByReplacing exampleEngine exampleCatalog exampleJson
        (exampleBuild [40]) exampleStoreWithBuild)) = 1
   \<and> begun (eventsOf (updateByReplacing exampleEngine exampleCatalog exampleJson
        (exampleBuild [40]) exampleStoreWithBuild)) = 1
   \<and> eventsOf (updateByReplacing exampleEngine exampleCatalog exampleJson
        (exampleBuild [40]) exampleStoreWithBuild) =
      Begin # Ran (DeleteById 1) # Savepoint
        # Ran (CreateBuild 7 ''Test'' None (Some ''[TW,SZ,]'') 1 2 3 0)
        # Ran (CreateBuildWeapon 2 40)
        # map (ranCell 2) (abilityCells exampleMatrix) @ [Release, Commit]"
proof -
  have a: "\<not> isl (fst (runStm exampleEngine (DeleteById (id' (exampleBuild [40])))
      exampleStoreWithBuild))"
    by (simp add: exampleEngine_def)
  have e: "eventsOf (updateByReplacing exampleEngine exampleCatalog exampleJson
        (exampleBuild [40]) exampleStoreWithBuild) =
      Begin # Ran (DeleteById 1) # Savepoint
        # Ran (CreateBuild 7 ''Test'' None (Some ''[TW,SZ,]'') 1 2 3 0)
        # Ran (CreateBuildWeapon 2 40)
        # map (ranCell 2) (abilityCells exampleMatrix) @ [Release, Commit]"
    by (simp only: example_update_ok eventsOf_def snd_conv)
  from a e single_transaction [where eng = exampleEngine and cat = exampleCatalog
      and js = exampleJson and build' = "exampleBuild [40]" and d = exampleStoreWithBuild]
  show ?thesis by blast
qed


subsection \<open>What create runs\<close>

lemma exec_outcome_Inr:
  assumes "outcome (exec eng call d) = Inr v"
  shows "fst (runStm eng call d) = Inr v" and "eventsOf (exec eng call d) = [Ran call]"
  using assms
  by (auto simp: exec_def outcome_def eventsOf_def split: prod.splits sum.splits)

lemma andThen_outcome_Inr:
  assumes "outcome (andThen m k d) = Inr v"
  obtains u where "outcome (m d) = Inr u"
    and "outcome (k u (dataAfter (m d))) = Inr v"
    and "eventsOf (andThen m k d) = eventsOf (m d) @ eventsOf (k u (dataAfter (m d)))"
proof -
  obtain r d1 evs where md: "m d = (r, d1, evs)" by (cases "m d" rule: prod_cases3)
  show thesis
  proof (cases r)
    case (Inl e)
    with md assms show thesis by (simp add: andThen_def outcome_def)
  next
    case (Inr u)
    with md have eq: "andThen m k d =
        (outcome (k u d1), dataAfter (k u d1), evs @ eventsOf (k u d1))"
      by (simp add: andThen_Inr)
    from md Inr have a: "outcome (m d) = Inr u" by (simp add: outcome_def)
    from md eq assms have b: "outcome (k u (dataAfter (m d))) = Inr v"
      by (simp add: outcome_def dataAfter_def)
    from md eq have c: "eventsOf (andThen m k d) =
        eventsOf (m d) @ eventsOf (k u (dataAfter (m d)))"
      by (simp add: eventsOf_def dataAfter_def)
    from a b c show thesis by (rule that)
  qed
qed

lemma createWeapons_Some:
  "createWeapons eng (Some i) ids = forEach ids (\<lambda>w. exec eng (CreateBuildWeapon i w))"
  by (simp add: createWeapons_def createdBuildId_Some)

lemma createAbilities_None:
  "validMatrix m \<Longrightarrow>
     outcome (createAbilities eng None m d) = Inl (TypeError ''createdBuild is undefined'')"
  by (erule validMatrix_shape)
     (simp add: createAbilities_def entries_def andThen_def createdBuildId_def throw_def
        outcome_def)

lemma create_runs:
  assumes v: "validMatrix (abilities build)"
    and ok: "outcome (create eng cat js build d) = Inr ()"
  shows "\<exists>createdId.
      fst (runStm eng (CreateBuild (ownerId build) (title build) (description build)
             (encodeModes cat js (modes build))
             (headGearSplId build) (clothesGearSplId build) (shoesGearSplId build)
             (private' build)) d) = Inr (Some createdId)
      \<and> eventsOf (create eng cat js build d) =
          Begin
          # Ran (CreateBuild (ownerId build) (title build) (description build)
                 (encodeModes cat js (modes build))
                 (headGearSplId build) (clothesGearSplId build) (shoesGearSplId build)
                 (private' build))
          # map (\<lambda>w. Ran (CreateBuildWeapon createdId w)) (weaponSplIds build)
          @ map (ranCell createdId) (abilityCells (abilities build))
          @ [Commit]"
proof -
  let ?call = "CreateBuild (ownerId build) (title build) (description build)
      (encodeModes cat js (modes build))
      (headGearSplId build) (clothesGearSplId build) (shoesGearSplId build) (private' build)"
  let ?ws = "weaponSplIds build"
  let ?m = "abilities build"
  let ?d1 = "dataAfter (exec eng ?call d)"
  from ok have fn: "outcome (createFn eng cat js build d) = Inr ()"
    by (simp add: create_def transaction_results(1))
  then have "outcome (andThen (exec eng ?call)
      (\<lambda>createdBuild. andThen (createWeapons eng createdBuild ?ws)
          (\<lambda>_. createAbilities eng createdBuild ?m)) d) = Inr ()"
    by (simp add: createFn_def)
  then obtain cb where o1: "outcome (exec eng ?call d) = Inr cb"
    and o2: "outcome (andThen (createWeapons eng cb ?ws)
        (\<lambda>_. createAbilities eng cb ?m) ?d1) = Inr ()"
    and e1: "eventsOf (andThen (exec eng ?call)
        (\<lambda>createdBuild. andThen (createWeapons eng createdBuild ?ws)
            (\<lambda>_. createAbilities eng createdBuild ?m)) d) =
      eventsOf (exec eng ?call d)
        @ eventsOf (andThen (createWeapons eng cb ?ws) (\<lambda>_. createAbilities eng cb ?m) ?d1)"
    by (rule andThen_outcome_Inr)
  let ?d2 = "dataAfter (createWeapons eng cb ?ws ?d1)"
  from o2 obtain u where w1: "outcome (createWeapons eng cb ?ws ?d1) = Inr u"
    and a1: "outcome (createAbilities eng cb ?m ?d2) = Inr ()"
    and e2: "eventsOf (andThen (createWeapons eng cb ?ws) (\<lambda>_. createAbilities eng cb ?m) ?d1) =
      eventsOf (createWeapons eng cb ?ws ?d1) @ eventsOf (createAbilities eng cb ?m ?d2)"
    by (rule andThen_outcome_Inr)
  from a1 createAbilities_None [OF v, of eng ?d2] obtain i where cb: "cb = Some i"
    by (cases cb) simp_all
  from o1 cb have run: "fst (runStm eng ?call d) = Inr (Some i)"
    and ev0: "eventsOf (exec eng ?call d) = [Ran ?call]"
    by (simp_all add: exec_outcome_Inr)
  from w1 cb have "outcome (forEach ?ws (\<lambda>w. exec eng (CreateBuildWeapon i w)) ?d1) = Inr ()"
    by (simp add: createWeapons_Some)
  then have "eventsOf (forEach ?ws (\<lambda>w. exec eng (CreateBuildWeapon i w)) ?d1) =
      map (\<lambda>w. Ran (CreateBuildWeapon i w)) ?ws"
    by (rule forEach_exec_events)
  then have evw: "eventsOf (createWeapons eng cb ?ws ?d1) =
      map (\<lambda>w. Ran (CreateBuildWeapon i w)) ?ws"
    by (simp add: cb createWeapons_Some)
  from a1 cb have "outcome (createAbilities eng (Some i) ?m ?d2) = Inr ()" by simp
  then have "eventsOf (createAbilities eng (Some i) ?m ?d2) = map (ranCell i) (abilityCells ?m)"
    unfolding createAbilities_cells ranCell_def by (rule forEach_exec_events)
  with cb have eva: "eventsOf (createAbilities eng cb ?m ?d2) = map (ranCell i) (abilityCells ?m)"
    by simp
  have "eventsOf (createFn eng cat js build d) =
      Ran ?call # map (\<lambda>w. Ran (CreateBuildWeapon i w)) ?ws @ map (ranCell i) (abilityCells ?m)"
    using e1 e2 ev0 evw eva by (simp add: createFn_def)
  with fn have "eventsOf (create eng cat js build d) =
      Begin # Ran ?call # map (\<lambda>w. Ran (CreateBuildWeapon i w)) ?ws
        @ map (ranCell i) (abilityCells ?m) @ [Commit]"
    by (simp add: create_def transaction_events ranCell_def comp_def)
  with run show ?thesis by blast
qed

text \<open>
  C7. For every 3x4 matrix the ability loop emits exactly twelve cells: the
  cell at position \<open>4 * r + c\<close> has the gear type at index \<open>r\<close> of
  \<open>[HEAD, CLOTHES, SHOES]\<close>, the slot index \<open>c\<close> and the ability
  \<open>m[r][c]\<close>, whatever the abilities are; when no statement fails, the
  statements that ran are those twelve, in that order. A \<open>create\<close> that
  returns has run the loop on the abilities of its build, with the id of the
  build row it created: its statements are the build insert, one weapon insert
  for each weapon identifier, and those twelve ability inserts, in this order.
\<close>

theorem encode_emits_12_cells:
  assumes "validMatrix m"
  shows "length (abilityCells m) = 12
    \<and> (\<forall>r < 3. \<forall>c < 4. abilityCells m ! (4 * r + c) =
          \<lparr>ability = m ! r ! c, gearType = gearOrder ! r, slotIndex = int c\<rparr>)
    \<and> (outcome (createAbilities eng (Some buildId) m d) = Inr () \<longrightarrow>
          eventsOf (createAbilities eng (Some buildId) m d) =
            map (ranCell buildId) (abilityCells m))
    \<and> (abilities build = m \<and> outcome (create eng cat js build d) = Inr () \<longrightarrow>
          (\<exists>createdId.
             fst (runStm eng (CreateBuild (ownerId build) (title build) (description build)
                    (encodeModes cat js (modes build))
                    (headGearSplId build) (clothesGearSplId build) (shoesGearSplId build)
                    (private' build)) d) = Inr (Some createdId)
             \<and> eventsOf (create eng cat js build d) =
                 Begin
                 # Ran (CreateBuild (ownerId build) (title build) (description build)
                        (encodeModes cat js (modes build))
                        (headGearSplId build) (clothesGearSplId build) (shoesGearSplId build)
                        (private' build))
                 # map (\<lambda>w. Ran (CreateBuildWeapon createdId w)) (weaponSplIds build)
                 @ map (ranCell createdId) (abilityCells m)
                 @ [Commit]))"
proof (intro conjI allI impI)
  show "length (abilityCells m) = 12" using assms by (rule length_abilityCells)
next
  fix r c :: nat
  assume "r < 3" and "c < 4"
  with assms show "abilityCells m ! (4 * r + c) =
      \<lparr>ability = m ! r ! c, gearType = gearOrder ! r, slotIndex = int c\<rparr>"
    by (rule abilityCells_nth)
next
  assume "outcome (createAbilities eng (Some buildId) m d) = Inr ()"
  then show "eventsOf (createAbilities eng (Some buildId) m d) =
      map (ranCell buildId) (abilityCells m)"
    unfolding createAbilities_cells ranCell_def by (rule forEach_exec_events)
next
  assume h: "abilities build = m \<and> outcome (create eng cat js build d) = Inr ()"
  with assms have "validMatrix (abilities build)" by simp
  from create_runs [OF this, of eng cat js d] h
  show "\<exists>createdId.
      fst (runStm eng (CreateBuild (ownerId build) (title build) (description build)
             (encodeModes cat js (modes build))
             (headGearSplId build) (clothesGearSplId build) (shoesGearSplId build)
             (private' build)) d) = Inr (Some createdId)
      \<and> eventsOf (create eng cat js build d) =
          Begin
          # Ran (CreateBuild (ownerId build) (title build) (description build)
                 (encodeModes cat js (modes build))
                 (headGearSplId build) (clothesGearSplId build) (shoesGearSplId build)
                 (private' build))
          # map (\<lambda>w. Ran (CreateBuildWeapon createdId w)) (weaponSplIds build)
          @ map (ranCell createdId) (abilityCells m)
          @ [Commit]"
    by simp
qed

lemma exampleRun_ability:
  "\<exists>d1. exampleRun (CreateBuildAbility b g a i) d = (Inr None, d1)"
  by simp

lemma example_abilities_ok:
  "outcome (forEach cs (\<lambda>c. exec exampleEngine
      (CreateBuildAbility b (gearType c) (ability c) (slotIndex c))) d) = Inr ()"
proof (induction cs arbitrary: d)
  case Nil
  show ?case by (simp add: outcome_def)
next
  case (Cons c cs)
  have "exec exampleEngine (CreateBuildAbility b (gearType c) (ability c) (slotIndex c)) d =
      (Inr None, snd (exampleRun (CreateBuildAbility b (gearType c) (ability c) (slotIndex c)) d),
       [Ran (CreateBuildAbility b (gearType c) (ability c) (slotIndex c))])"
    by (simp add: exec_def exampleEngine_def)
  from andThen_Inr [where m = "exec exampleEngine
        (CreateBuildAbility b (gearType c) (ability c) (slotIndex c))" and d = d
        and k = "\<lambda>_. forEach cs (\<lambda>c. exec exampleEngine
          (CreateBuildAbility b (gearType c) (ability c) (slotIndex c)))", OF this] Cons.IH
  show ?case by (simp add: outcome_def)
qed

lemma example_create_ok:
  "create exampleEngine exampleCatalog exampleJson (exampleBuild [40]) exampleStore =
     (Inr (),
      \<lparr>lastId = 1, buildRows = [(1, 7, ''Test'')], weaponRows = [(1, 40)],
       abilityRows = map (Pair 1) (abilityCells exampleMatrix)\<rparr>,
      Begin # Ran (CreateBuild 7 ''Test'' None (Some ''[TW,SZ,]'') 1 2 3 0)
        # Ran (CreateBuildWeapon 1 40)
        # map (ranCell 1) (abilityCells exampleMatrix) @ [Commit])"
  by (simp add: create_def transaction_def createFn_def createWeapons_def
      createAbilities_def entries_def andThen_def exec_def createdBuildId_def exampleEngine_def
      exampleBuild_def encodeModes_def exampleCatalog_def exampleJson_def arraySort_def
      exampleStore_def exampleMatrix_def abilityCells_explicit ranCell_def rowGearType_def)

theorem encode_emits_12_cells_witness:
  "validMatrix exampleMatrix
   \<and> length (abilityCells exampleMatrix) = 12
   \<and> abilityCells exampleMatrix ! (4 * 1 + 2) =
        \<lparr>ability = ''SS'', gearType = CLOTHES, slotIndex = 2\<rparr>
   \<and> outcome (createAbilities exampleEngine (Some 1) exampleMatrix exampleStore) = Inr ()
   \<and> eventsOf (createAbilities exampleEngine (Some 1) exampleMatrix exampleStore) =
        map (ranCell 1) (abilityCells exampleMatrix)
   \<and> abilities (exampleBuild [40]) = exampleMatrix
   \<and> outcome (create exampleEngine exampleCatalog exampleJson (exampleBuild [40]) exampleStore)
        = Inr ()
   \<and> eventsOf (create exampleEngine exampleCatalog exampleJson (exampleBuild [40]) exampleStore)
        = Begin # Ran (CreateBuild 7 ''Test'' None (Some ''[TW,SZ,]'') 1 2 3 0)
            # Ran (CreateBuildWeapon 1 40)
            # map (ranCell 1) (abilityCells exampleMatrix) @ [Commit]
   \<and> abilityRows (dataAfter (create exampleEngine exampleCatalog exampleJson
        (exampleBuild [40]) exampleStore)) = map (Pair 1) (abilityCells exampleMatrix)"
proof -
  have v: "validMatrix exampleMatrix" by (simp add: validMatrix_def exampleMatrix_def)
  have ok: "outcome (createAbilities exampleEngine (Some 1) exampleMatrix exampleStore) = Inr ()"
    unfolding createAbilities_cells by (rule example_abilities_ok)
  have nth: "abilityCells exampleMatrix ! (4 * 1 + 2) =
      \<lparr>ability = ''SS'', gearType = CLOTHES, slotIndex = 2\<rparr>"
    by (simp add: exampleMatrix_def abilityCells_explicit)
  have ab: "abilities (exampleBuild [40]) = exampleMatrix" by (simp add: exampleBuild_def)
  have cr: "outcome (create exampleEngine exampleCatalog exampleJson (exampleBuild [40])
      exampleStore) = Inr ()"
    by (simp only: example_create_ok outcome_def fst_conv)
  have ev: "eventsOf (create exampleEngine exampleCatalog exampleJson (exampleBuild [40])
      exampleStore) =
      Begin # Ran (CreateBuild 7 ''Test'' None (Some ''[TW,SZ,]'') 1 2 3 0)
        # Ran (CreateBuildWeapon 1 40)
        # map (ranCell 1) (abilityCells exampleMatrix) @ [Commit]"
    by (simp only: example_create_ok eventsOf_def snd_conv)
  have rows: "abilityRows (dataAfter (create exampleEngine exampleCatalog exampleJson
      (exampleBuild [40]) exampleStore)) = map (Pair 1) (abilityCells exampleMatrix)"
    by (simp add: example_create_ok dataAfter_def)
  from encode_emits_12_cells [OF v, where eng = exampleEngine and buildId = 1
      and d = exampleStore and build = "exampleBuild [40]" and cat = exampleCatalog
      and js = exampleJson] v ok nth ab cr ev rows
  show ?thesis by blast
qed

end
